theory Spec2Isabelle
  imports Main
begin

section \<open>The objects that bot.py builds\<close>

text \<open>
  \<^verbatim>\<open>run_bot\<close> of \<^verbatim>\<open>src/bot.py\<close> builds one list of messages, a context over it, the
  stages of the pipeline and the task, and registers two handlers on the transport.
  A message is the Python dict with the keys \<^verbatim>\<open>role\<close> and \<^verbatim>\<open>content\<close>.
\<close>

record message =
  role :: string
  content :: string

text \<open>
  Python lists are objects: the list \<^verbatim>\<open>messages\<close> lives at an address of the heap, and
  \<^verbatim>\<open>messages.append(m)\<close> changes the list stored there.
\<close>

type_synonym addr = nat
type_synonym heap = "addr \<Rightarrow> message list"

definition list_append :: "heap \<Rightarrow> addr \<Rightarrow> message \<Rightarrow> heap" where
  "list_append h a m = h(a := h a @ [m])"

text \<open>
  Modelled from the spec: the class \<^verbatim>\<open>OpenAILLMContext\<close> is imported from the framework
  and is not under src/. The spec (sections 3 and 9) has the conversation context share
  the conversation list by reference, so the context object keeps the address of the list
  it was built from, and reading its messages reads the heap at that address.
\<close>

datatype llm_context = OpenAILLMContext addr

fun context_messages :: "heap \<Rightarrow> llm_context \<Rightarrow> message list" where
  "context_messages h (OpenAILLMContext a) = h a"

text \<open>
  Modelled from the spec: the context frame of the framework (the spec's synthetic
  \<^verbatim>\<open>ContextUpdate\<close>/start frame) refers to the context object; what it shows is the
  context's messages at the time it is read.
\<close>

datatype frame = OpenAILLMContextFrame llm_context

fun frame_messages :: "heap \<Rightarrow> frame \<Rightarrow> message list" where
  "frame_messages h (OpenAILLMContextFrame c) = context_messages h c"

text \<open>
  The two aggregators made by \<^verbatim>\<open>llm.create_context_aggregator(context)\<close>; both hold the
  context, and \<^verbatim>\<open>get_context_frame()\<close> wraps it in a frame.
\<close>

datatype aggregator =
    LLMUserContextAggregator llm_context
  | LLMAssistantContextAggregator llm_context

record context_aggregator_pair =
  user :: aggregator
  assistant :: aggregator

definition create_context_aggregator :: "llm_context \<Rightarrow> context_aggregator_pair" where
  "create_context_aggregator c =
     \<lparr>user = LLMUserContextAggregator c, assistant = LLMAssistantContextAggregator c\<rparr>"

fun get_context_frame :: "aggregator \<Rightarrow> frame" where
  "get_context_frame (LLMUserContextAggregator c) = OpenAILLMContextFrame c"
| "get_context_frame (LLMAssistantContextAggregator c) = OpenAILLMContextFrame c"

text \<open>
  The stages, one constructor per object that \<^verbatim>\<open>run_bot\<close> puts into the pipeline. The
  keys of the services are read from the environment and are not part of the model; the
  text-to-speech service keeps its \<^verbatim>\<open>voice_id\<close>.
\<close>

datatype frame_processor =
    TransportInput
  | RTVIProcessor
  | DeepgramSTTService
  | ContextAggregator aggregator
  | OpenAILLMService
  | CartesiaTTSService string
  | TransportOutput

datatype observer = RTVIObserver frame_processor

record PipelineParams =
  audio_in_sample_rate :: int
  audio_out_sample_rate :: int
  enable_metrics :: bool
  enable_usage_metrics :: bool

record PipelineTask =
  pipeline :: "frame_processor list"
  params :: PipelineParams
  observers :: "observer list"

section \<open>run\_bot\<close>

definition stt :: frame_processor where
  "stt = DeepgramSTTService"

definition tts :: frame_processor where
  "tts = CartesiaTTSService ''71a7ad14-091c-4e8e-a314-022ece01c121''"

definition llm :: frame_processor where
  "llm = OpenAILLMService"

definition rtvi :: frame_processor where
  "rtvi = RTVIProcessor"

text \<open>
  The names that the two handlers close over. They are bound once in \<^verbatim>\<open>run_bot\<close> and
  never assigned again, so they form an environment apart from the mutable state.
\<close>

record env =
  messages :: addr
  the_context :: llm_context
  context_aggregator :: context_aggregator_pair
  task :: PipelineTask

definition run_bot_env :: env where
  "run_bot_env =
     (let messages = 0;
          context = OpenAILLMContext messages;
          context_aggregator = create_context_aggregator context;
          pipeline =
            [TransportInput,
             rtvi,
             stt,
             ContextAggregator (user context_aggregator),
             llm,
             tts,
             TransportOutput,
             ContextAggregator (assistant context_aggregator)];
          task =
            \<lparr>pipeline = pipeline,
             params = \<lparr>audio_in_sample_rate = 8000,
                       audio_out_sample_rate = 8000,
                       enable_metrics = True,
                       enable_usage_metrics = True\<rparr>,
             observers = [RTVIObserver rtvi]\<rparr>
      in \<lparr>messages = messages, the_context = context,
          context_aggregator = context_aggregator, task = task\<rparr>)"

text \<open>
  What the handlers change: the heap, the calls made on the task (in the order they are
  made) and the lines written to the logger.
\<close>

datatype task_call = QueueFrames "frame list" | Cancel

record state =
  heap :: heap
  task_calls :: "task_call list"
  logged :: "string list"

text \<open>
  The state when \<^verbatim>\<open>run_bot\<close> reaches \<^verbatim>\<open>runner.run(task)\<close>. The text of the first message
  (the order-taking script, a literal of 48 lines with typographic quotes) is the
  parameter \<open>script\<close>.
\<close>

definition run_bot_init :: "string \<Rightarrow> state" where
  "run_bot_init script =
     \<lparr>heap = (\<lambda>_. [])(messages run_bot_env := [\<lparr>role = ''system'', content = script\<rparr>]),
      task_calls = [],
      logged = [''Starting bot'']\<rparr>"

definition greeting :: message where
  "greeting = \<lparr>role = ''system'', content = ''Say hello and briefly introduce yourself.''\<rparr>"

definition on_client_connected :: "env \<Rightarrow> state \<Rightarrow> state" where
  "on_client_connected e s =
     (let s1 = s\<lparr>logged := logged s @ [''Client connected'']\<rparr>;
          s2 = s1\<lparr>heap := list_append (heap s1) (messages e) greeting\<rparr>
      in s2\<lparr>task_calls := task_calls s2 @
              [QueueFrames [get_context_frame (user (context_aggregator e))]]\<rparr>)"

definition on_client_disconnected :: "env \<Rightarrow> state \<Rightarrow> state" where
  "on_client_disconnected e s =
     (let s1 = s\<lparr>logged := logged s @ [''Client disconnected'']\<rparr>
      in s1\<lparr>task_calls := task_calls s1 @ [Cancel]\<rparr>)"

text \<open>
  The transport calls the handler registered for the event it signals; a call runs the
  events of its transport in the order they arrive.
\<close>

datatype event = ClientConnected | ClientDisconnected

fun handle :: "env \<Rightarrow> state \<Rightarrow> event \<Rightarrow> state" where
  "handle e s ClientConnected = on_client_connected e s"
| "handle e s ClientDisconnected = on_client_disconnected e s"

definition run_events :: "env \<Rightarrow> state \<Rightarrow> event list \<Rightarrow> state" where
  "run_events e s evs = foldl (handle e) s evs"

section \<open>The chain of stages\<close>

text \<open>
  Modelled from the spec: the class \<^verbatim>\<open>Pipeline\<close> is imported from the framework and is
  not under src/. The spec (sections 2 and 3) has a pipeline connect its stages
  input-to-output in the order of the list: the output of a stage is the input of the
  stage that follows it, and the last stage has none.
\<close>

fun downstream :: "'a list \<Rightarrow> 'a \<Rightarrow> 'a option" where
  "downstream (a # b # ps) p = (if p = a then Some b else downstream (b # ps) p)"
| "downstream _ p = None"

text \<open>
  The stages a frame visits when every stage hands it to its output, from stage \<open>p\<close> on,
  for at most \<open>n\<close> steps.
\<close>

fun route :: "nat \<Rightarrow> ('a \<Rightarrow> 'a option) \<Rightarrow> 'a \<Rightarrow> 'a list" where
  "route 0 nxt p = [p]"
| "route (Suc n) nxt p = (case nxt p of None \<Rightarrow> [p] | Some q \<Rightarrow> p # route n nxt q)"

definition frame_path :: "'a list \<Rightarrow> 'a list" where
  "frame_path ps = (case ps of [] \<Rightarrow> [] | p # _ \<Rightarrow> route (length ps) (downstream ps) p)"

text \<open>
  Whether a stage hands a given frame to its output or keeps it is decided by the code
  of the stage, which is the framework's; it is the parameter \<open>hands_on\<close>. A frame
  \<open>f\<close> at stage \<open>p\<close> is handed to the output of \<open>p\<close> when \<open>hands_on p f\<close> holds and
  stops at \<open>p\<close> otherwise; \<open>visits\<close> lists the stages it reaches, for at most \<open>n\<close>
  steps. A frame enters the pipeline at its first stage.
\<close>

fun visits :: "nat \<Rightarrow> ('a \<Rightarrow> 'a option) \<Rightarrow> ('a \<Rightarrow> 'f \<Rightarrow> bool) \<Rightarrow> 'f \<Rightarrow> 'a \<Rightarrow> 'a list" where
  "visits 0 nxt hands_on f p = [p]"
| "visits (Suc n) nxt hands_on f p =
     (if hands_on p f
      then (case nxt p of None \<Rightarrow> [p] | Some q \<Rightarrow> p # visits n nxt hands_on f q)
      else [p])"

definition frame_visits :: "('a \<Rightarrow> 'f \<Rightarrow> bool) \<Rightarrow> 'a list \<Rightarrow> 'f \<Rightarrow> 'a list" where
  "frame_visits hands_on ps f =
     (case ps of [] \<Rightarrow> [] | p # _ \<Rightarrow> visits (length ps) (downstream ps) hands_on f p)"

text \<open>
  The order of the stages as the data flow of the spec (section 2) lists them, for the
  aggregators of a context \<open>c\<close>.
\<close>

definition spec_data_flow :: "llm_context \<Rightarrow> frame_processor list" where
  "spec_data_flow c =
     [TransportInput,
      DeepgramSTTService,
      ContextAggregator (LLMUserContextAggregator c),
      OpenAILLMService,
      CartesiaTTSService ''71a7ad14-091c-4e8e-a314-022ece01c121'',
      TransportOutput,
      ContextAggregator (LLMAssistantContextAggregator c)]"

section \<open>The session as the spec reads it\<close>

text \<open>
  Modelled from the spec: \<^verbatim>\<open>task.cancel()\<close> is a method of the framework's task and is
  not under src/. The spec (section 4.4) has a cancellation issued to the pipeline take
  the session to its state Closed, which is final: the session is closed once a
  cancellation is among the calls made on the task.
\<close>

definition closed :: "state \<Rightarrow> bool" where
  "closed s = (Cancel \<in> set (task_calls s))"

section \<open>Facts about the model\<close>

lemma run_bot_pipeline:
  "pipeline (task run_bot_env) =
     [TransportInput, RTVIProcessor, DeepgramSTTService,
      ContextAggregator (LLMUserContextAggregator (OpenAILLMContext 0)),
      OpenAILLMService,
      CartesiaTTSService ''71a7ad14-091c-4e8e-a314-022ece01c121'',
      TransportOutput,
      ContextAggregator (LLMAssistantContextAggregator (OpenAILLMContext 0))]"
  by (simp add: run_bot_env_def Let_def create_context_aggregator_def
      stt_def tts_def llm_def rtvi_def)

lemma run_bot_context:
  "the_context run_bot_env = OpenAILLMContext 0" "messages run_bot_env = 0"
  "user (context_aggregator run_bot_env) = LLMUserContextAggregator (OpenAILLMContext 0)"
  by (simp_all add: run_bot_env_def Let_def create_context_aggregator_def)

subsection \<open>The chain follows the list\<close>

lemma downstream_in_set: "downstream ps p = Some q \<Longrightarrow> q \<in> set ps"
  by (induction ps p rule: downstream.induct) (auto split: if_splits)

lemma route_cong:
  "(\<And>q. q \<in> A \<Longrightarrow> f q = g q) \<Longrightarrow> (\<And>q r. q \<in> A \<Longrightarrow> g q = Some r \<Longrightarrow> r \<in> A) \<Longrightarrow> p \<in> A
     \<Longrightarrow> route n f p = route n g p"
  by (induction n arbitrary: p) (auto split: option.splits)

lemma route_chain:
  "distinct (a # ps) \<Longrightarrow> length ps \<le> n \<Longrightarrow> route n (downstream (a # ps)) a = a # ps"
proof (induction ps arbitrary: a n)
  case Nil
  have "downstream [a] a = None" by simp
  then show ?case by (cases n) (simp_all del: downstream.simps)
next
  case (Cons b ps)
  then obtain m where n: "n = Suc m" and m: "length ps \<le> m" by (cases n) auto
  have first: "downstream (a # b # ps) a = Some b" by simp
  have "route m (downstream (a # b # ps)) b = route m (downstream (b # ps)) b"
  proof (rule route_cong [where A = "set (b # ps)"])
    fix q assume "q \<in> set (b # ps)"
    with Cons.prems(1) show "downstream (a # b # ps) q = downstream (b # ps) q" by auto
  next
    fix q r assume "q \<in> set (b # ps)" "downstream (b # ps) q = Some r"
    then show "r \<in> set (b # ps)" by (rule_tac downstream_in_set)
  qed simp
  also have "\<dots> = b # ps" using Cons.IH [of b m] Cons.prems(1) m by simp
  finally show ?case using n first by (simp del: downstream.simps)
qed

text \<open>
  The fuel of \<open>frame_path\<close> is enough: in a pipeline of distinct stages a frame that
  every stage hands on visits all the stages, in the order of the list, and stops.
\<close>

lemma frame_path_distinct: "distinct ps \<Longrightarrow> frame_path ps = ps"
proof (cases ps)
  case Nil
  then show ?thesis by (simp add: frame_path_def)
next
  case (Cons a qs)
  assume "distinct ps"
  with Cons have "route (length ps) (downstream (a # qs)) a = a # qs"
    by (intro route_chain) simp_all
  with Cons show ?thesis by (simp add: frame_path_def del: downstream.simps)
qed

text \<open>
  The same for a frame that some stage may keep: in a pipeline of distinct stages the
  frame visits the stages in the order of the list, up to and including the first stage
  that does not hand it on.
\<close>

lemma visits_cong:
  "(\<And>q. q \<in> A \<Longrightarrow> g q = g' q) \<Longrightarrow> (\<And>q r. q \<in> A \<Longrightarrow> g' q = Some r \<Longrightarrow> r \<in> A) \<Longrightarrow> p \<in> A
     \<Longrightarrow> visits n g h f p = visits n g' h f p"
  by (induction n arbitrary: p) (auto split: option.splits)

lemma visits_chain:
  "distinct (a # ps) \<Longrightarrow> length ps \<le> n \<Longrightarrow>
     visits n (downstream (a # ps)) h f a =
       take (Suc (length (takeWhile (\<lambda>p. h p f) (a # ps)))) (a # ps)"
proof (induction ps arbitrary: a n)
  case Nil
  have "downstream [a] a = None" by simp
  then show ?case by (cases n) (simp_all del: downstream.simps)
next
  case (Cons b ps)
  then obtain m where n: "n = Suc m" and m: "length ps \<le> m" by (cases n) auto
  have first: "downstream (a # b # ps) a = Some b" by simp
  show ?case
  proof (cases "h a f")
    case False
    then show ?thesis using n by (simp del: downstream.simps)
  next
    case True
    have "visits m (downstream (a # b # ps)) h f b = visits m (downstream (b # ps)) h f b"
    proof (rule visits_cong [where A = "set (b # ps)"])
      fix q assume "q \<in> set (b # ps)"
      with Cons.prems(1) show "downstream (a # b # ps) q = downstream (b # ps) q" by auto
    next
      fix q r assume "q \<in> set (b # ps)" "downstream (b # ps) q = Some r"
      then show "r \<in> set (b # ps)" by (rule_tac downstream_in_set)
    qed simp
    also have "\<dots> = take (Suc (length (takeWhile (\<lambda>p. h p f) (b # ps)))) (b # ps)"
      using Cons.IH [of b m] Cons.prems(1) m by simp
    finally show ?thesis using n first True by (simp del: downstream.simps)
  qed
qed

lemma frame_visits_distinct:
  "distinct ps \<Longrightarrow>
     frame_visits h ps f = take (Suc (length (takeWhile (\<lambda>p. h p f) ps))) ps"
proof (cases ps)
  case Nil
  then show ?thesis by (simp add: frame_visits_def)
next
  case (Cons a qs)
  assume "distinct ps"
  with Cons have "visits (length ps) (downstream (a # qs)) h f a =
      take (Suc (length (takeWhile (\<lambda>p. h p f) (a # qs)))) (a # qs)"
    by (intro visits_chain) simp_all
  with Cons show ?thesis by (simp add: frame_visits_def del: downstream.simps)
qed

subsection \<open>A cancellation stays\<close>

lemma closed_handle: "closed s \<Longrightarrow> closed (handle e s ev)"
  by (cases ev)
    (simp_all add: closed_def on_client_connected_def on_client_disconnected_def Let_def)

lemma closed_run_events: "closed s \<Longrightarrow> closed (run_events e s evs)"
  unfolding run_events_def
  by (induction evs arbitrary: s) (simp_all add: closed_handle)

section \<open>The claims\<close>

text \<open>
  C1, as the spec states it, fails: the list that \<^verbatim>\<open>run_bot\<close> gives to the pipeline is
  not the data-flow order of the spec, and the stage after transport-input is not
  speech-to-text.
\<close>

theorem C1_counterexample:
  "pipeline (task run_bot_env) \<noteq> spec_data_flow (the_context run_bot_env)
   \<and> downstream (pipeline (task run_bot_env)) TransportInput \<noteq> Some DeepgramSTTService"
  by (simp add: run_bot_pipeline run_bot_context spec_data_flow_def)

text \<open>
  C1, amended: the pipeline is an ordered chain whose stages appear in this order:
  transport-input, then the RTVI processor, then speech-to-text, then the user context
  aggregator, then the language-model stage, then text-to-speech, then transport-output,
  with the assistant context aggregator after transport-output (without the RTVI
  processor this is exactly the data-flow order of the spec); for every frame entering
  the pipeline, it traverses the stages in this order: whatever the stages do with the
  frame, the stages it visits are the stages of the list, in the order of the list, up
  to and including the first one that does not hand it on, and all of them when every
  stage hands it on.
\<close>

theorem C1_pipeline_order:
  "pipeline (task run_bot_env) =
     [TransportInput, rtvi, stt, ContextAggregator (user (context_aggregator run_bot_env)),
      llm, tts, TransportOutput,
      ContextAggregator (assistant (context_aggregator run_bot_env))]
   \<and> filter (\<lambda>p. p \<noteq> rtvi) (pipeline (task run_bot_env)) =
       spec_data_flow (the_context run_bot_env)
   \<and> frame_visits hands_on (pipeline (task run_bot_env)) f =
       take (Suc (length (takeWhile (\<lambda>p. hands_on p f) (pipeline (task run_bot_env)))))
         (pipeline (task run_bot_env))
   \<and> frame_visits (\<lambda>p f. True) (pipeline (task run_bot_env)) f = pipeline (task run_bot_env)"
proof -
  have d: "distinct (pipeline (task run_bot_env))" by (simp add: run_bot_pipeline)
  have v: "frame_visits hands_on (pipeline (task run_bot_env)) f =
       take (Suc (length (takeWhile (\<lambda>p. hands_on p f) (pipeline (task run_bot_env)))))
         (pipeline (task run_bot_env))"
    using d by (rule frame_visits_distinct)
  have "frame_visits (\<lambda>p f. True) (pipeline (task run_bot_env)) f =
       take (Suc (length (takeWhile (\<lambda>p. True) (pipeline (task run_bot_env)))))
         (pipeline (task run_bot_env))"
    using d by (rule frame_visits_distinct)
  moreover have "takeWhile (\<lambda>p. True) (pipeline (task run_bot_env)) =
      pipeline (task run_bot_env)"
    by simp
  ultimately have all: "frame_visits (\<lambda>p f. True) (pipeline (task run_bot_env)) f =
      pipeline (task run_bot_env)"
    by simp
  have l: "pipeline (task run_bot_env) =
     [TransportInput, rtvi, stt, ContextAggregator (user (context_aggregator run_bot_env)),
      llm, tts, TransportOutput,
      ContextAggregator (assistant (context_aggregator run_bot_env))]"
    by (simp add: run_bot_env_def Let_def)
  have s: "filter (\<lambda>p. p \<noteq> rtvi) (pipeline (task run_bot_env)) =
       spec_data_flow (the_context run_bot_env)"
    by (simp add: run_bot_pipeline run_bot_context spec_data_flow_def rtvi_def)
  from l s v all show ?thesis by blast
qed

text \<open>
  C2: in every state, the handler of "client connected" appends the system-role
  directive "Say hello and briefly introduce yourself." to the messages of the
  conversation context and queues one context frame on the task; on a fresh session
  that frame shows system messages only, so the first turn of the language model starts
  with no user input.
\<close>

theorem C2_connected_seeds_and_queues:
  "context_messages (heap (on_client_connected run_bot_env s)) (the_context run_bot_env) =
     context_messages (heap s) (the_context run_bot_env) @
       [\<lparr>role = ''system'', content = ''Say hello and briefly introduce yourself.''\<rparr>]
   \<and> task_calls (on_client_connected run_bot_env s) =
       task_calls s @ [QueueFrames [OpenAILLMContextFrame (the_context run_bot_env)]]
   \<and> map role (frame_messages (heap (on_client_connected run_bot_env (run_bot_init script)))
         (OpenAILLMContextFrame (the_context run_bot_env))) = [''system'', ''system'']"
  by (simp add: on_client_connected_def Let_def run_bot_context list_append_def greeting_def
      run_bot_init_def)

text \<open>
  C3: in every state, the handler of "client disconnected" makes exactly one call on the
  task, the cancellation, and leaves the conversation alone; the session is then closed,
  and it stays closed whatever events of the transport follow (nothing reopens it).
\<close>

theorem C3_disconnected_cancels:
  "task_calls (on_client_disconnected e s) = task_calls s @ [Cancel]
   \<and> heap (on_client_disconnected e s) = heap s
   \<and> closed (on_client_disconnected e s)
   \<and> closed (run_events e (handle e s ClientDisconnected) evs)"
proof -
  have c: "closed (on_client_disconnected e s)"
    by (simp add: closed_def on_client_disconnected_def Let_def)
  then have "closed (run_events e (handle e s ClientDisconnected) evs)"
    by (simp add: closed_run_events)
  with c show ?thesis by (simp add: on_client_disconnected_def Let_def)
qed

text \<open>
  C9: the context reads the list that the handler appends to. After "client connected"
  on a fresh session the context holds exactly two messages, both of role system (the
  script, then the greeting directive), the only call made on the task is the queueing
  of the context frame (no call updates the context), and that frame shows both.
\<close>

theorem C9_context_shares_messages:
  "context_messages (heap (on_client_connected run_bot_env (run_bot_init script)))
       (the_context run_bot_env) =
     [\<lparr>role = ''system'', content = script\<rparr>,
      \<lparr>role = ''system'', content = ''Say hello and briefly introduce yourself.''\<rparr>]
   \<and> task_calls (on_client_connected run_bot_env (run_bot_init script)) =
       [QueueFrames [OpenAILLMContextFrame (the_context run_bot_env)]]
   \<and> frame_messages (heap (on_client_connected run_bot_env (run_bot_init script)))
        (OpenAILLMContextFrame (the_context run_bot_env)) =
     [\<lparr>role = ''system'', content = script\<rparr>,
      \<lparr>role = ''system'', content = ''Say hello and briefly introduce yourself.''\<rparr>]"
  by (simp add: on_client_connected_def Let_def run_bot_context list_append_def greeting_def
      run_bot_init_def)

text \<open>
  C10: the RTVI processor is the second stage of the pipeline; the output of
  transport-input is the RTVI processor and the output of the RTVI processor is
  speech-to-text, so a frame from transport-input visits exactly transport-input and the
  RTVI processor before it reaches speech-to-text; and the task has one observer, the
  RTVI observer of that same processor.
\<close>

theorem C10_rtvi_inline_and_observer:
  "pipeline (task run_bot_env) ! 1 = rtvi
   \<and> downstream (pipeline (task run_bot_env)) TransportInput = Some rtvi
   \<and> downstream (pipeline (task run_bot_env)) rtvi = Some stt
   \<and> takeWhile (\<lambda>p. p \<noteq> stt) (frame_path (pipeline (task run_bot_env))) =
       [TransportInput, rtvi]
   \<and> observers (task run_bot_env) = [RTVIObserver rtvi]"
proof -
  have "distinct (pipeline (task run_bot_env))" by (simp add: run_bot_pipeline)
  then have "frame_path (pipeline (task run_bot_env)) = pipeline (task run_bot_env)"
    by (rule frame_path_distinct)
  then show ?thesis
    by (simp add: run_bot_pipeline rtvi_def stt_def) (simp add: run_bot_env_def Let_def rtvi_def)
qed

end
